theory Spec2Isabelle
  imports Complex_Main "HOL-Library.Multiset"
begin

section \<open>Python values used by \<^verbatim>\<open>tracktotrip/track.py\<close>\<close>

text \<open>
  A Python float is a real number, one of the two infinities or NaN. Only comparisons,
  \<^verbatim>\<open>min\<close>/\<^verbatim>\<open>max\<close> and the mean are needed; none of them
  rounds except the mean, whose finite case is computed here over the reals (rounding and
  overflow of the sum are left out).
\<close>

datatype pyfloat = NaN | NInf | Fin real | PInf

text \<open>The comparison \<^verbatim>\<open>a < b\<close> of two floats: false as soon as one side is NaN.\<close>

fun pf_lt :: "pyfloat \<Rightarrow> pyfloat \<Rightarrow> bool" where
  "pf_lt NaN b = False"
| "pf_lt a NaN = False"
| "pf_lt NInf NInf = False"
| "pf_lt NInf b = True"
| "pf_lt (Fin x) NInf = False"
| "pf_lt (Fin x) (Fin y) = (x < y)"
| "pf_lt (Fin x) PInf = True"
| "pf_lt PInf b = False"

text \<open>The comparison \<^verbatim>\<open>a <= b\<close>.\<close>

fun pf_le :: "pyfloat \<Rightarrow> pyfloat \<Rightarrow> bool" where
  "pf_le NaN b = False"
| "pf_le a NaN = False"
| "pf_le NInf b = True"
| "pf_le (Fin x) NInf = False"
| "pf_le (Fin x) (Fin y) = (x \<le> y)"
| "pf_le (Fin x) PInf = True"
| "pf_le PInf PInf = True"
| "pf_le PInf b = False"

text \<open>
  The builtins \<^verbatim>\<open>min(a, b)\<close> and \<^verbatim>\<open>max(a, b)\<close> keep their first
  argument unless the second is strictly smaller (strictly greater).
\<close>

definition py_min :: "pyfloat \<Rightarrow> pyfloat \<Rightarrow> pyfloat" where
  "py_min a b = (if pf_lt b a then b else a)"

definition py_max :: "pyfloat \<Rightarrow> pyfloat \<Rightarrow> pyfloat" where
  "py_max a b = (if pf_lt a b then b else a)"

datatype py_error = IndexError | ValueError

text \<open>
  The subscript \<^verbatim>\<open>xs[i]\<close> of a list. \<open>py_pos\<close> is the position the index
  \<open>i\<close> stands for, if any: \<open>i\<close> itself from \<open>0\<close> up to the length, the length plus \<open>i\<close>
  for the negative indices down to minus the length. Any other index raises IndexError.
\<close>

definition py_pos :: "'a list \<Rightarrow> int \<Rightarrow> nat option" where
  "py_pos xs i =
     (if 0 \<le> i \<and> i < int (length xs) then Some (nat i)
      else if - int (length xs) \<le> i \<and> i < 0 then Some (nat (int (length xs) + i))
      else None)"

definition py_index :: "'a list \<Rightarrow> int \<Rightarrow> py_error + 'a" where
  "py_index xs i = (case py_pos xs i of None \<Rightarrow> Inl IndexError | Some p \<Rightarrow> Inr (xs ! p))"

section \<open>The track and the segment interface\<close>

type_synonym bbox = "pyfloat \<times> pyfloat \<times> pyfloat \<times> pyfloat"

text \<open>
  The class \<^verbatim>\<open>Segment\<close> lives in another module. The methods of it that
  \<^verbatim>\<open>Track\<close> calls are the fields of this record; a method that mutates its
  receiver returns the receiver's new state. \<open>'seg\<close> is the state of a segment, \<open>'pts\<close>
  what \<^verbatim>\<open>Segment.segment\<close> yields for each part, \<open>'t\<close> a start time.
  Throughout, distinct positions of a segment list hold distinct objects, and two tracks
  share none (the ownership rule of the data model), so a list of segment states stands for
  the list of objects.
\<close>

record ('seg, 'pts, 't) segment_class =
  seg_getStartTime :: "'seg \<Rightarrow> 't"
  seg_getBounds :: "'seg \<Rightarrow> bbox"
  seg_first_point_strftime :: "'seg \<Rightarrow> string \<Rightarrow> string"
  seg_removeNoise :: "real \<Rightarrow> 'seg \<Rightarrow> 'seg"
  seg_smooth :: "string \<Rightarrow> real \<Rightarrow> 'seg \<Rightarrow> 'seg"
  seg_segment :: "real \<Rightarrow> real \<Rightarrow> 'seg \<Rightarrow> 'pts list"
  seg_Segment :: "'pts \<Rightarrow> 'seg"
  seg_simplify :: "bool \<Rightarrow> real \<Rightarrow> 'seg \<Rightarrow> 'seg"
  seg_compute_metrics :: "'seg \<Rightarrow> 'seg"
  seg_merge_and_fit :: "'seg \<Rightarrow> 'seg \<Rightarrow> 'seg \<times> 'seg"

record 'seg track =
  name :: string
  segments :: "'seg list"
  preprocessed :: bool

text \<open>
  \<^verbatim>\<open>Track.__init__\<close>. \<^verbatim>\<open>sorted(segments, key=...)\<close> is a stable sort by
  the key; the stable sorted arrangement of a list is unique, so \<^const>\<open>sort_key\<close>
  returns the list Python returns.
\<close>

definition Track_init ::
  "('seg, 'pts, 't::linorder) segment_class \<Rightarrow> string \<Rightarrow> 'seg list \<Rightarrow> 'seg track" where
  "Track_init cls nm segs =
     \<lparr>name = nm, segments = sort_key (seg_getStartTime cls) segs, preprocessed = False\<rparr>"

text \<open>\<^verbatim>\<open>Track.segmentAt\<close>: \<^verbatim>\<open>return self.segments[i]\<close>.\<close>

definition segmentAt :: "'seg track \<Rightarrow> int \<Rightarrow> py_error + 'seg" where
  "segmentAt self i = py_index (segments self) i"

text \<open>
  \<^verbatim>\<open>Track.generateName\<close>. Under the guard \<^verbatim>\<open>len(self.segments) > 0\<close> the
  call \<^verbatim>\<open>self.segmentAt(0)\<close> is the head of the list; the rest of the expression,
  \<^verbatim>\<open>.pointAt(0).time.strftime(f)\<close>, belongs to the segment.
\<close>

definition generateName :: "('seg, 'pts, 't) segment_class \<Rightarrow> 'seg track \<Rightarrow> string \<Rightarrow> string" where
  "generateName cls self f =
     (case segments self of
        s # rest \<Rightarrow> seg_first_point_strftime cls s f @ ''.gpx''
      | [] \<Rightarrow> ''EmptyTrack'')"

subsection \<open>The stages\<close>

text \<open>
  Each stage runs \<^verbatim>\<open>for segment in self.segments: segment.stage(...)\<close> and ends with
  \<^verbatim>\<open>return self\<close>: the value of the model is the state of the receiver after
  the call.
\<close>

definition removeNoise :: "('seg, 'pts, 't) segment_class \<Rightarrow> real \<Rightarrow> 'seg track \<Rightarrow> 'seg track" where
  "removeNoise cls var self = self\<lparr>segments := map (seg_removeNoise cls var) (segments self)\<rparr>"

definition smooth ::
  "('seg, 'pts, 't) segment_class \<Rightarrow> string \<Rightarrow> real \<Rightarrow> 'seg track \<Rightarrow> 'seg track" where
  "smooth cls strategy noise self =
     self\<lparr>segments := map (seg_smooth cls strategy noise) (segments self)\<rparr>"

text \<open>
  \<^verbatim>\<open>Track.segment\<close>: the two nested loops that fill \<^verbatim>\<open>newSegments\<close>, which
  then replaces the segment list.
\<close>

fun wrap_parts :: "('seg, 'pts, 't) segment_class \<Rightarrow> 'pts list \<Rightarrow> 'seg list \<Rightarrow> 'seg list" where
  "wrap_parts cls [] newSegments = newSegments"
| "wrap_parts cls (a # s) newSegments = wrap_parts cls s (newSegments @ [seg_Segment cls a])"

fun segment_loop ::
  "('seg, 'pts, 't) segment_class \<Rightarrow> real \<Rightarrow> real \<Rightarrow> 'seg list \<Rightarrow> 'seg list \<Rightarrow> 'seg list" where
  "segment_loop cls eps min_time [] newSegments = newSegments"
| "segment_loop cls eps min_time (sg # rest) newSegments =
     segment_loop cls eps min_time rest (wrap_parts cls (seg_segment cls eps min_time sg) newSegments)"

definition segment ::
  "('seg, 'pts, 't) segment_class \<Rightarrow> real \<Rightarrow> real \<Rightarrow> 'seg track \<Rightarrow> 'seg track" where
  "segment cls eps min_time self =
     self\<lparr>segments := segment_loop cls eps min_time (segments self) []\<rparr>"

definition simplify ::
  "('seg, 'pts, 't) segment_class \<Rightarrow> bool \<Rightarrow> real \<Rightarrow> 'seg track \<Rightarrow> 'seg track" where
  "simplify cls topology_only dist_threshold self =
     self\<lparr>segments := map (seg_simplify cls topology_only dist_threshold) (segments self)\<rparr>"

definition compute_metrics :: "('seg, 'pts, 't) segment_class \<Rightarrow> 'seg track \<Rightarrow> 'seg track" where
  "compute_metrics cls self = self\<lparr>segments := map (seg_compute_metrics cls) (segments self)\<rparr>"

text \<open>
  \<^verbatim>\<open>Track.toTrip\<close>, statement by statement. The call of \<^verbatim>\<open>removeNoise\<close> is
  commented out in the source and so absent here; \<^verbatim>\<open>simplify\<close> is called with
  its default \<^verbatim>\<open>topology_only=False\<close>.
\<close>

definition toTrip ::
  "('seg, 'pts, 't) segment_class \<Rightarrow> string \<Rightarrow> real \<Rightarrow> string \<Rightarrow> real \<Rightarrow> real \<Rightarrow> real \<Rightarrow> real \<Rightarrow> real
     \<Rightarrow> string \<Rightarrow> 'seg track \<Rightarrow> 'seg track" where
  "toTrip cls nm noise_var smooth_strategy smooth_noise seg_eps seg_min_time
       simplify_dist_threshold simplify_max_time file_format self =
     (let nm1 = (if length nm \<noteq> 0 then name self else generateName cls self file_format);
          self1 = smooth cls smooth_strategy smooth_noise self;
          self2 = compute_metrics cls self1;
          self3 = segment cls seg_eps seg_min_time self2;
          self4 = compute_metrics cls self3;
          self5 = simplify cls False simplify_dist_threshold self4;
          self6 = compute_metrics cls self5
      in self6\<lparr>name := nm1\<rparr>)"

subsection \<open>Merging\<close>

text \<open>
  An entry of a correspondence list is the empty list \<^verbatim>\<open>[]\<close> or a triple
  \<^verbatim>\<open>(selfSegIndex, trackSegIndex, diff)\<close>.
\<close>

datatype 'd corr = Empty_marker | Triple "int \<times> int \<times> 'd"

text \<open>
  The loop of \<^verbatim>\<open>Track.merge_and_fit\<close> over the two segment lists. Unpacking the
  empty marker into three names raises ValueError, either subscript may raise IndexError,
  and what earlier iterations changed stays changed. The segment's own
  \<^verbatim>\<open>merge_and_fit\<close> may change both of its segments; the new states are written
  back at the positions the subscripts resolved to.
\<close>

fun merge_loop ::
  "('seg, 'pts, 't) segment_class \<Rightarrow> 'seg list \<Rightarrow> 'seg list \<Rightarrow> 'd corr list
     \<Rightarrow> 'seg list \<times> 'seg list \<times> py_error option" where
  "merge_loop cls ss ts [] = (ss, ts, None)"
| "merge_loop cls ss ts (Empty_marker # ff) = (ss, ts, Some ValueError)"
| "merge_loop cls ss ts (Triple (selfSegIndex, trackSegIndex, payload) # ff) =
     (case py_pos ss selfSegIndex of
        None \<Rightarrow> (ss, ts, Some IndexError)
      | Some p \<Rightarrow>
          (case py_pos ts trackSegIndex of
             None \<Rightarrow> (ss, ts, Some IndexError)
           | Some q \<Rightarrow>
               (case seg_merge_and_fit cls (ss ! p) (ts ! q) of
                  (selfS, trackS) \<Rightarrow> merge_loop cls (ss[p := selfS]) (ts[q := trackS]) ff)))"

text \<open>
  The effect of a call of \<^verbatim>\<open>merge_and_fit\<close>: the two tracks afterwards, and either
  the exception raised or the value returned.
\<close>

record 'seg merge_effect =
  self_after :: "'seg track"
  other_after :: "'seg track"
  returned :: "py_error + 'seg track"

definition merge_and_fit ::
  "('seg, 'pts, 't) segment_class \<Rightarrow> 'seg track \<Rightarrow> 'seg track \<Rightarrow> 'd corr list \<Rightarrow> real
     \<Rightarrow> 'seg merge_effect" where
  "merge_and_fit cls self trk ff threshold =
     (case merge_loop cls (segments self) (segments trk) ff of
        (ss, ts, err) \<Rightarrow>
          \<lparr>self_after = self\<lparr>segments := ss\<rparr>,
           other_after = trk\<lparr>segments := ts\<rparr>,
           returned = (case err of None \<Rightarrow> Inr (self\<lparr>segments := ss\<rparr>) | Some e \<Rightarrow> Inl e)\<rparr>)"

subsection \<open>Bounds\<close>

text \<open>\<^verbatim>\<open>Track.getBounds\<close>: the loop, started from the inverted box.\<close>

fun getBounds_loop :: "('seg, 'pts, 't) segment_class \<Rightarrow> 'seg list \<Rightarrow> bbox \<Rightarrow> bbox" where
  "getBounds_loop cls [] acc = acc"
| "getBounds_loop cls (sg # rest) (minLat, minLon, maxLat, maxLon) =
     (case seg_getBounds cls sg of
        (milat, milon, malat, malon) \<Rightarrow>
          getBounds_loop cls rest
            (py_min milat minLat, py_min milon minLon, py_max malat maxLat, py_max malon maxLon))"

definition getBounds :: "('seg, 'pts, 't) segment_class \<Rightarrow> 'seg track \<Rightarrow> bbox" where
  "getBounds cls self = getBounds_loop cls (segments self) (PInf, PInf, NInf, NInf)"

subsection \<open>Similarity\<close>
















section \<open>Notions used to state the properties\<close>

text \<open>
  The four components of a box \<^verbatim>\<open>(minLat, minLon, maxLat, maxLon)\<close>, a box all
  of whose components are numbers, and the least and the greatest element of a list of
  floats.
\<close>

definition box_minLat :: "bbox \<Rightarrow> pyfloat" where "box_minLat b = fst b"

definition box_minLon :: "bbox \<Rightarrow> pyfloat" where "box_minLon b = fst (snd b)"

definition box_maxLat :: "bbox \<Rightarrow> pyfloat" where "box_maxLat b = fst (snd (snd b))"

definition box_maxLon :: "bbox \<Rightarrow> pyfloat" where "box_maxLon b = snd (snd (snd b))"

definition box_no_nan :: "bbox \<Rightarrow> bool" where
  "box_no_nan b = (box_minLat b \<noteq> NaN \<and> box_minLon b \<noteq> NaN \<and> box_maxLat b \<noteq> NaN \<and> box_maxLon b \<noteq> NaN)"

definition is_least :: "pyfloat \<Rightarrow> pyfloat list \<Rightarrow> bool" where
  "is_least m xs = (m \<in> set xs \<and> (\<forall>x \<in> set xs. pf_le m x))"

definition is_greatest :: "pyfloat \<Rightarrow> pyfloat list \<Rightarrow> bool" where
  "is_greatest m xs = (m \<in> set xs \<and> (\<forall>x \<in> set xs. pf_le x m))"

text \<open>
  What an entry of a correspondence list names: the positions its two indices stand for
  in the two segment lists, and the pair of indices itself.
\<close>

fun index_pair :: "'d corr \<Rightarrow> (int \<times> int) option" where
  "index_pair Empty_marker = None"
| "index_pair (Triple (i, j, d)) = Some (i, j)"








section \<open>A small instance\<close>

text \<open>
  A segment class for concrete runs: a segment carries a start time, a bounding box and a
  log, to which every mutating method appends its own name.
\<close>

record demo_segment =
  ds_start :: int
  ds_box :: bbox
  ds_log :: "string list"

definition logged :: "string \<Rightarrow> demo_segment \<Rightarrow> demo_segment" where
  "logged ev s = s\<lparr>ds_log := ds_log s @ [ev]\<rparr>"

definition demo_class :: "(demo_segment, demo_segment, int) segment_class" where
  "demo_class =
     \<lparr>seg_getStartTime = ds_start,
      seg_getBounds = ds_box,
      seg_first_point_strftime = (\<lambda>s f. f),
      seg_removeNoise = (\<lambda>var. logged ''removeNoise''),
      seg_smooth = (\<lambda>strategy noise. logged ''smooth''),
      seg_segment = (\<lambda>eps min_time s. [logged ''segment'' s]),
      seg_Segment = (\<lambda>a. a),
      seg_simplify = (\<lambda>topology_only dist_threshold. logged ''simplify''),
      seg_compute_metrics = logged ''compute_metrics'',
      seg_merge_and_fit = (\<lambda>a b. (a\<lparr>ds_log := ds_log a @ ''merge'' # ds_log b\<rparr>, b))\<rparr>"

definition demo_seg :: "int \<Rightarrow> real \<Rightarrow> real \<Rightarrow> real \<Rightarrow> real \<Rightarrow> string \<Rightarrow> demo_segment" where
  "demo_seg t a b c d nm = \<lparr>ds_start = t, ds_box = (Fin a, Fin b, Fin c, Fin d), ds_log = [nm]\<rparr>"


definition demo_A :: "demo_segment track" where
  "demo_A = \<lparr>name = ''A'',
     segments = [demo_seg 1 0 0 2 2 ''a0'', demo_seg 5 1 1 3 3 ''a1'', demo_seg 5 10 10 11 11 ''a2''],
     preprocessed = False\<rparr>"

definition demo_B :: "demo_segment track" where
  "demo_B = \<lparr>name = ''B'',
     segments = [demo_seg 2 2 2 10 10 ''b0'', demo_seg 3 20 20 21 21 ''b1''],
     preprocessed = False\<rparr>"

definition demo_empty :: "demo_segment track" where
  "demo_empty = \<lparr>name = ''old'', segments = [], preprocessed = False\<rparr>"



definition demo_raw :: "demo_segment track" where
  "demo_raw = \<lparr>name = ''raw'', segments = [demo_seg 1 0 0 1 1 ''s''], preprocessed = False\<rparr>"

section \<open>Properties\<close>

subsection \<open>Order facts about floats\<close>

lemma pf_le_refl: "a \<noteq> NaN \<Longrightarrow> pf_le a a"
  by (cases a) auto

lemma pf_le_trans: "pf_le a b \<Longrightarrow> pf_le b c \<Longrightarrow> pf_le a c"
  by (cases a; cases b; cases c) auto


lemma py_min_cases: "a \<noteq> NaN \<Longrightarrow> b \<noteq> NaN \<Longrightarrow>
  py_min a b \<noteq> NaN \<and> pf_le (py_min a b) a \<and> pf_le (py_min a b) b \<and> (py_min a b = a \<or> py_min a b = b)"
  by (cases a; cases b) (auto simp: py_min_def)

lemma py_max_cases: "a \<noteq> NaN \<Longrightarrow> b \<noteq> NaN \<Longrightarrow>
  py_max a b \<noteq> NaN \<and> pf_le a (py_max a b) \<and> pf_le b (py_max a b) \<and> (py_max a b = a \<or> py_max a b = b)"
  by (cases a; cases b) (auto simp: py_max_def)




subsection \<open>Construction\<close>

text \<open>
  C6. For every input list of segments, the segment list of the constructed track is the
  input sorted ascending by start time, stably: its start times are in order, it holds the
  same segments as often as the input does, and the segments that share a start time stand
  in their input order.
\<close>

theorem Track_init_stable_sort:
  "sorted (map (seg_getStartTime cls) (segments (Track_init cls nm segs))) \<and>
   mset (segments (Track_init cls nm segs)) = mset segs \<and>
   (\<forall>k. filter (\<lambda>s. seg_getStartTime cls s = k) (segments (Track_init cls nm segs)) =
        filter (\<lambda>s. seg_getStartTime cls s = k) segs)"
  by (simp add: Track_init_def sorted_sort_key sort_key_stable)

theorem Track_init_stable_sort_witness:
  "sorted (map ds_start (segments (Track_init demo_class ''t''
      [demo_seg 5 0 0 1 1 ''x'', demo_seg 1 0 0 1 1 ''y'', demo_seg 5 0 0 1 1 ''z'']))) \<and>
   filter (\<lambda>s. ds_start s = 5) (segments (Track_init demo_class ''t''
      [demo_seg 5 0 0 1 1 ''x'', demo_seg 1 0 0 1 1 ''y'', demo_seg 5 0 0 1 1 ''z'']))
     = [demo_seg 5 0 0 1 1 ''x'', demo_seg 5 0 0 1 1 ''z''] \<and>
   filter (\<lambda>s. ds_start s = 1) (segments (Track_init demo_class ''t''
      [demo_seg 5 0 0 1 1 ''x'', demo_seg 1 0 0 1 1 ''y'', demo_seg 5 0 0 1 1 ''z'']))
     = [demo_seg 1 0 0 1 1 ''y'']"
proof -
  let ?input = "[demo_seg 5 0 0 1 1 ''x'', demo_seg 1 0 0 1 1 ''y'', demo_seg 5 0 0 1 1 ''z'']"
  let ?out = "segments (Track_init demo_class ''t'' ?input)"
  note T = Track_init_stable_sort[of demo_class "''t''" ?input]
  have key: "seg_getStartTime demo_class = ds_start"
    by (simp add: demo_class_def)
  from T have s: "sorted (map ds_start ?out)"
    by (simp only: key)
  from T have "filter (\<lambda>s. ds_start s = 5) ?out = filter (\<lambda>s. ds_start s = 5) ?input"
    unfolding key by blast
  then have f5: "filter (\<lambda>s. ds_start s = 5) ?out
      = [demo_seg 5 0 0 1 1 ''x'', demo_seg 5 0 0 1 1 ''z'']"
    by (simp add: demo_seg_def)
  from T have "filter (\<lambda>s. ds_start s = 1) ?out = filter (\<lambda>s. ds_start s = 1) ?input"
    unfolding key by blast
  then have f1: "filter (\<lambda>s. ds_start s = 1) ?out = [demo_seg 1 0 0 1 1 ''y'']"
    by (simp add: demo_seg_def)
  from s f5 f1 show ?thesis by blast
qed

text \<open>
  C9, as the code has it. \<^verbatim>\<open>segmentAt(i)\<close> returns the \<open>i\<close>-th segment when
  \<open>0 \<le> i < n\<close>, the segment at position \<open>n + i\<close> when \<open>-n \<le> i < 0\<close> (Python counts a
  negative index from the end), and raises IndexError for every other \<open>i\<close>.
\<close>

theorem segmentAt_cases:
  "(0 \<le> i \<and> i < int (length (segments self)) \<longrightarrow>
      segmentAt self i = Inr (segments self ! nat i)) \<and>
   (- int (length (segments self)) \<le> i \<and> i < 0 \<longrightarrow>
      segmentAt self i = Inr (segments self ! nat (int (length (segments self)) + i))) \<and>
   (i < - int (length (segments self)) \<or> int (length (segments self)) \<le> i \<longrightarrow>
      segmentAt self i = Inl IndexError)"
  by (auto simp: segmentAt_def py_index_def py_pos_def)

theorem segmentAt_cases_witness:
  "segmentAt demo_B 1 = Inr (demo_seg 3 20 20 21 21 ''b1'') \<and>
   segmentAt demo_B (- 2) = Inr (demo_seg 2 2 2 10 10 ''b0'') \<and>
   segmentAt demo_B 2 = Inl IndexError \<and>
   segmentAt demo_B (- 3) = Inl IndexError"
  using segmentAt_cases[of 1 demo_B] segmentAt_cases[of "- 2" demo_B]
    segmentAt_cases[of 2 demo_B] segmentAt_cases[of "- 3" demo_B]
  by (simp add: demo_B_def)

text \<open>
  The claim as stated fails: \<open>- 1\<close> is not a valid index in the sense \<open>0 \<le> i < n\<close>, and
  \<^verbatim>\<open>segmentAt(-1)\<close> returns the last segment.
\<close>

theorem segmentAt_negative_counterexample:
  "\<not> (0 \<le> (- 1 :: int) \<and> (- 1 :: int) < int (length (segments demo_B))) \<and>
   segmentAt demo_B (- 1) = Inr (demo_seg 3 20 20 21 21 ''b1'')"
  by (simp add: segmentAt_def py_index_def py_pos_def demo_B_def)

subsection \<open>Bounds\<close>

lemma getBounds_loop_foldl:
  "getBounds_loop cls segs (a, b, c, d) =
     (foldl (\<lambda>m x. py_min x m) a (map (\<lambda>s. box_minLat (seg_getBounds cls s)) segs),
      foldl (\<lambda>m x. py_min x m) b (map (\<lambda>s. box_minLon (seg_getBounds cls s)) segs),
      foldl (\<lambda>m x. py_max x m) c (map (\<lambda>s. box_maxLat (seg_getBounds cls s)) segs),
      foldl (\<lambda>m x. py_max x m) d (map (\<lambda>s. box_maxLon (seg_getBounds cls s)) segs))"
proof (induction segs arbitrary: a b c d)
  case Nil
  show ?case by simp
next
  case (Cons sg rest)
  show ?case
    by (cases "seg_getBounds cls sg")
      (simp add: Cons.IH box_minLat_def box_minLon_def box_maxLat_def box_maxLon_def)
qed

lemma foldl_py_min_least:
  "a \<noteq> NaN \<Longrightarrow> NaN \<notin> set xs \<Longrightarrow>
     foldl (\<lambda>m x. py_min x m) a xs \<noteq> NaN \<and> is_least (foldl (\<lambda>m x. py_min x m) a xs) (a # xs)"
proof (induction xs arbitrary: a)
  case Nil
  then show ?case by (simp add: is_least_def pf_le_refl)
next
  case (Cons x xs)
  from Cons.prems have x: "x \<noteq> NaN" and xs: "NaN \<notin> set xs" by auto
  note m = py_min_cases[OF x Cons.prems(1)]
  from Cons.IH[of "py_min x a"] m xs
  have IH: "foldl (\<lambda>m x. py_min x m) (py_min x a) xs \<noteq> NaN"
    "is_least (foldl (\<lambda>m x. py_min x m) (py_min x a) xs) (py_min x a # xs)" by auto
  let ?r = "foldl (\<lambda>m x. py_min x m) (py_min x a) xs"
  from IH(2) have le: "pf_le ?r (py_min x a)" and all: "\<forall>y \<in> set xs. pf_le ?r y"
    and mem: "?r = py_min x a \<or> ?r \<in> set xs"
    by (auto simp: is_least_def)
  from le m have "pf_le ?r x" "pf_le ?r a" by (blast intro: pf_le_trans)+
  moreover from mem m have "?r \<in> set (a # x # xs)" by auto
  ultimately show ?case using IH(1) all by (simp add: is_least_def)
qed

lemma foldl_py_max_greatest:
  "a \<noteq> NaN \<Longrightarrow> NaN \<notin> set xs \<Longrightarrow>
     foldl (\<lambda>m x. py_max x m) a xs \<noteq> NaN \<and> is_greatest (foldl (\<lambda>m x. py_max x m) a xs) (a # xs)"
proof (induction xs arbitrary: a)
  case Nil
  then show ?case by (simp add: is_greatest_def pf_le_refl)
next
  case (Cons x xs)
  from Cons.prems have x: "x \<noteq> NaN" and xs: "NaN \<notin> set xs" by auto
  note m = py_max_cases[OF x Cons.prems(1)]
  from Cons.IH[of "py_max x a"] m xs
  have IH: "foldl (\<lambda>m x. py_max x m) (py_max x a) xs \<noteq> NaN"
    "is_greatest (foldl (\<lambda>m x. py_max x m) (py_max x a) xs) (py_max x a # xs)" by auto
  let ?r = "foldl (\<lambda>m x. py_max x m) (py_max x a) xs"
  from IH(2) have le: "pf_le (py_max x a) ?r" and all: "\<forall>y \<in> set xs. pf_le y ?r"
    and mem: "?r = py_max x a \<or> ?r \<in> set xs"
    by (auto simp: is_greatest_def)
  from le m have "pf_le x ?r" "pf_le a ?r" by (blast intro: pf_le_trans)+
  moreover from mem m have "?r \<in> set (a # x # xs)" by auto
  ultimately show ?case using IH(1) all by (simp add: is_greatest_def)
qed

lemma is_least_drop_PInf:
  "xs \<noteq> [] \<Longrightarrow> NaN \<notin> set xs \<Longrightarrow> is_least m (PInf # xs) \<Longrightarrow> is_least m xs"
proof -
  assume ne: "xs \<noteq> []" and nn: "NaN \<notin> set xs" and l: "is_least m (PInf # xs)"
  then obtain y where y: "y \<in> set xs" by (cases xs) auto
  show ?thesis
  proof (cases "m \<in> set xs")
    case True
    with l show ?thesis by (simp add: is_least_def)
  next
    case False
    with l have mp: "m = PInf" by (auto simp: is_least_def)
    with l y have "pf_le PInf y" by (auto simp: is_least_def)
    then have "y = PInf" by (cases y) auto
    with y mp False show ?thesis by simp
  qed
qed

lemma is_greatest_drop_NInf:
  "xs \<noteq> [] \<Longrightarrow> NaN \<notin> set xs \<Longrightarrow> is_greatest m (NInf # xs) \<Longrightarrow> is_greatest m xs"
proof -
  assume ne: "xs \<noteq> []" and nn: "NaN \<notin> set xs" and l: "is_greatest m (NInf # xs)"
  then obtain y where y: "y \<in> set xs" by (cases xs) auto
  show ?thesis
  proof (cases "m \<in> set xs")
    case True
    with l show ?thesis by (simp add: is_greatest_def)
  next
    case False
    with l have mp: "m = NInf" by (auto simp: is_greatest_def)
    with l y have "pf_le y NInf" by (auto simp: is_greatest_def)
    then have "y = NInf" by (cases y) auto
    with y mp False show ?thesis by simp
  qed
qed

text \<open>
  C7. \<^verbatim>\<open>getBounds\<close> of a track with no segment is the inverted box
  \<open>(+inf, +inf, -inf, -inf)\<close>. For a track with segments whose boxes hold numbers
  (no NaN, for which a least element means nothing), each of the first two components is
  the least of the segments' corresponding minima and each of the last two the greatest of
  the segments' corresponding maxima.
\<close>

theorem getBounds_union:
  "(segments self = [] \<longrightarrow> getBounds cls self = (PInf, PInf, NInf, NInf)) \<and>
   (segments self \<noteq> [] \<and> (\<forall>s \<in> set (segments self). box_no_nan (seg_getBounds cls s)) \<longrightarrow>
      is_least (box_minLat (getBounds cls self)) (map (\<lambda>s. box_minLat (seg_getBounds cls s)) (segments self)) \<and>
      is_least (box_minLon (getBounds cls self)) (map (\<lambda>s. box_minLon (seg_getBounds cls s)) (segments self)) \<and>
      is_greatest (box_maxLat (getBounds cls self)) (map (\<lambda>s. box_maxLat (seg_getBounds cls s)) (segments self)) \<and>
      is_greatest (box_maxLon (getBounds cls self)) (map (\<lambda>s. box_maxLon (seg_getBounds cls s)) (segments self)))"
proof (intro conjI impI)
  assume "segments self = []"
  then show "getBounds cls self = (PInf, PInf, NInf, NInf)" by (simp add: getBounds_def)
next
  assume a: "segments self \<noteq> [] \<and> (\<forall>s \<in> set (segments self). box_no_nan (seg_getBounds cls s))"
  let ?S = "segments self"
  have ne: "\<And>f. map f ?S \<noteq> []" using a by simp
  have n1: "NaN \<notin> set (map (\<lambda>s. box_minLat (seg_getBounds cls s)) ?S)"
    and n2: "NaN \<notin> set (map (\<lambda>s. box_minLon (seg_getBounds cls s)) ?S)"
    and n3: "NaN \<notin> set (map (\<lambda>s. box_maxLat (seg_getBounds cls s)) ?S)"
    and n4: "NaN \<notin> set (map (\<lambda>s. box_maxLon (seg_getBounds cls s)) ?S)"
    using a by (auto simp: box_no_nan_def)
  have g: "getBounds cls self = getBounds_loop cls ?S (PInf, PInf, NInf, NInf)"
    by (simp add: getBounds_def)
  show "is_least (box_minLat (getBounds cls self)) (map (\<lambda>s. box_minLat (seg_getBounds cls s)) ?S)"
    unfolding g getBounds_loop_foldl
    using foldl_py_min_least[OF _ n1, of PInf] is_least_drop_PInf[OF ne n1]
    by (simp add: box_minLat_def)
  show "is_least (box_minLon (getBounds cls self)) (map (\<lambda>s. box_minLon (seg_getBounds cls s)) ?S)"
    unfolding g getBounds_loop_foldl
    using foldl_py_min_least[OF _ n2, of PInf] is_least_drop_PInf[OF ne n2]
    by (simp add: box_minLon_def)
  show "is_greatest (box_maxLat (getBounds cls self)) (map (\<lambda>s. box_maxLat (seg_getBounds cls s)) ?S)"
    unfolding g getBounds_loop_foldl
    using foldl_py_max_greatest[OF _ n3, of NInf] is_greatest_drop_NInf[OF ne n3]
    by (simp add: box_maxLat_def)
  show "is_greatest (box_maxLon (getBounds cls self)) (map (\<lambda>s. box_maxLon (seg_getBounds cls s)) ?S)"
    unfolding g getBounds_loop_foldl
    using foldl_py_max_greatest[OF _ n4, of NInf] is_greatest_drop_NInf[OF ne n4]
    by (simp add: box_maxLon_def)
qed

theorem getBounds_union_witness:
  "getBounds demo_class demo_empty = (PInf, PInf, NInf, NInf) \<and>
   getBounds demo_class demo_A = (Fin 0, Fin 0, Fin 11, Fin 11)"
proof -
  have e: "getBounds demo_class demo_empty = (PInf, PInf, NInf, NInf)"
    using getBounds_union[of demo_empty demo_class] by (simp add: demo_empty_def)
  have hyp: "segments demo_A \<noteq> [] \<and>
      (\<forall>s \<in> set (segments demo_A). box_no_nan (seg_getBounds demo_class s))"
    by (simp add: demo_A_def demo_class_def demo_seg_def box_no_nan_def box_minLat_def
        box_minLon_def box_maxLat_def box_maxLon_def)
  from getBounds_union[of demo_A demo_class] hyp
  have l1: "is_least (box_minLat (getBounds demo_class demo_A)) [Fin 0, Fin 1, Fin 10]"
    and l2: "is_least (box_minLon (getBounds demo_class demo_A)) [Fin 0, Fin 1, Fin 10]"
    and g1: "is_greatest (box_maxLat (getBounds demo_class demo_A)) [Fin 2, Fin 3, Fin 11]"
    and g2: "is_greatest (box_maxLon (getBounds demo_class demo_A)) [Fin 2, Fin 3, Fin 11]"
    by (simp_all add: demo_A_def demo_class_def demo_seg_def box_minLat_def
        box_minLon_def box_maxLat_def box_maxLon_def)
  from l1 have c1: "box_minLat (getBounds demo_class demo_A) = Fin 0"
    by (auto simp: is_least_def)
  from l2 have c2: "box_minLon (getBounds demo_class demo_A) = Fin 0"
    by (auto simp: is_least_def)
  from g1 have c3: "box_maxLat (getBounds demo_class demo_A) = Fin 11"
    by (auto simp: is_greatest_def)
  from g2 have c4: "box_maxLon (getBounds demo_class demo_A) = Fin 11"
    by (auto simp: is_greatest_def)
  from c1 c2 c3 c4 have "getBounds demo_class demo_A = (Fin 0, Fin 0, Fin 11, Fin 11)"
    by (cases "getBounds demo_class demo_A")
      (simp add: box_minLat_def box_minLon_def box_maxLat_def box_maxLon_def)
  with e show ?thesis by blast
qed

subsection \<open>The pipeline\<close>

lemma wrap_parts_eq: "wrap_parts cls s newSegments = newSegments @ map (seg_Segment cls) s"
  by (induction s arbitrary: newSegments) auto

lemma segment_loop_eq:
  "segment_loop cls eps min_time segs newSegments =
     newSegments @ concat (map (\<lambda>sg. map (seg_Segment cls) (seg_segment cls eps min_time sg)) segs)"
  by (induction segs arbitrary: newSegments) (auto simp: wrap_parts_eq)

lemma toTrip_name:
  "name (toTrip cls nm noise_var smooth_strategy smooth_noise seg_eps seg_min_time
       simplify_dist_threshold simplify_max_time file_format self) =
     (if nm \<noteq> [] then name self else generateName cls self file_format)"
  by (simp add: toTrip_def Let_def)

text \<open>
  C4 fails on the code. With the non-empty name \<open>new\<close>, \<^verbatim>\<open>toTrip\<close> leaves the
  track named \<open>old\<close>, as it was: the branch for a supplied name assigns
  \<^verbatim>\<open>name = self.name\<close>.
\<close>

theorem toTrip_discards_supplied_name:
  "name demo_empty = ''old'' \<and>
   name (toTrip demo_class ''new'' 2 ''inverse'' 1 1 1 1 5 ''%Y-%m-%d'' demo_empty) = ''old''"
  by (simp add: toTrip_def Let_def demo_empty_def smooth_def compute_metrics_def segment_def
      simplify_def)

text \<open>
  C5. The segments \<^verbatim>\<open>toTrip\<close> leaves are those of the stages smooth,
  compute_metrics, segment, compute_metrics, simplify (with
  \<^verbatim>\<open>topology_only=False\<close>), compute_metrics, applied in this order: each segment
  is smoothed and measured, the parts of all segments are wrapped and concatenated in
  order, and each result is measured, simplified and measured again. The track returned is
  the receiver, its flag untouched. Noise removal takes no part: the result is the same
  whatever \<^verbatim>\<open>Segment.removeNoise\<close> does and whatever \<^verbatim>\<open>noise_var\<close> is.
  \<^verbatim>\<open>removeNoise\<close> itself is a stage of its own, which applies
  \<^verbatim>\<open>Segment.removeNoise\<close> to every segment.
\<close>

theorem toTrip_stage_sequence:
  "segments (toTrip cls nm noise_var smooth_strategy smooth_noise seg_eps seg_min_time
       simplify_dist_threshold simplify_max_time file_format self)
     = segments (compute_metrics cls (simplify cls False simplify_dist_threshold
         (compute_metrics cls (segment cls seg_eps seg_min_time
           (compute_metrics cls (smooth cls smooth_strategy smooth_noise self)))))) \<and>
   segments (toTrip cls nm noise_var smooth_strategy smooth_noise seg_eps seg_min_time
       simplify_dist_threshold simplify_max_time file_format self)
     = map (seg_compute_metrics cls)
         (map (seg_simplify cls False simplify_dist_threshold)
           (map (seg_compute_metrics cls)
             (concat (map (\<lambda>sg. map (seg_Segment cls) (seg_segment cls seg_eps seg_min_time sg))
               (map (seg_compute_metrics cls)
                 (map (seg_smooth cls smooth_strategy smooth_noise) (segments self))))))) \<and>
   preprocessed (toTrip cls nm noise_var smooth_strategy smooth_noise seg_eps seg_min_time
       simplify_dist_threshold simplify_max_time file_format self) = preprocessed self \<and>
   toTrip (cls\<lparr>seg_removeNoise := rn\<rparr>) nm noise_var' smooth_strategy smooth_noise seg_eps
       seg_min_time simplify_dist_threshold simplify_max_time file_format self
     = toTrip cls nm noise_var smooth_strategy smooth_noise seg_eps seg_min_time
         simplify_dist_threshold simplify_max_time file_format self \<and>
   segments (removeNoise cls var self) = map (seg_removeNoise cls var) (segments self)"
proof -
  have s: "segment_loop (cls\<lparr>seg_removeNoise := rn\<rparr>) e m xs [] = segment_loop cls e m xs []"
    for e m xs
    by (simp add: segment_loop_eq)
  have g: "generateName (cls\<lparr>seg_removeNoise := rn\<rparr>) self file_format
      = generateName cls self file_format"
    by (simp add: generateName_def split: list.splits)
  have c1: "segments (toTrip cls nm noise_var smooth_strategy smooth_noise seg_eps seg_min_time
       simplify_dist_threshold simplify_max_time file_format self)
     = segments (compute_metrics cls (simplify cls False simplify_dist_threshold
         (compute_metrics cls (segment cls seg_eps seg_min_time
           (compute_metrics cls (smooth cls smooth_strategy smooth_noise self))))))"
    by (simp add: toTrip_def Let_def)
  have c2: "segments (compute_metrics cls (simplify cls False simplify_dist_threshold
         (compute_metrics cls (segment cls seg_eps seg_min_time
           (compute_metrics cls (smooth cls smooth_strategy smooth_noise self))))))
     = map (seg_compute_metrics cls)
         (map (seg_simplify cls False simplify_dist_threshold)
           (map (seg_compute_metrics cls)
             (concat (map (\<lambda>sg. map (seg_Segment cls) (seg_segment cls seg_eps seg_min_time sg))
               (map (seg_compute_metrics cls)
                 (map (seg_smooth cls smooth_strategy smooth_noise) (segments self)))))))"
    by (simp add: compute_metrics_def simplify_def segment_def smooth_def segment_loop_eq)
  have c3: "preprocessed (toTrip cls nm noise_var smooth_strategy smooth_noise seg_eps seg_min_time
       simplify_dist_threshold simplify_max_time file_format self) = preprocessed self"
    by (simp add: toTrip_def Let_def compute_metrics_def simplify_def segment_def smooth_def)
  have c4: "toTrip (cls\<lparr>seg_removeNoise := rn\<rparr>) nm noise_var' smooth_strategy smooth_noise seg_eps
       seg_min_time simplify_dist_threshold simplify_max_time file_format self
     = toTrip cls nm noise_var smooth_strategy smooth_noise seg_eps seg_min_time
         simplify_dist_threshold simplify_max_time file_format self"
    by (simp add: toTrip_def Let_def compute_metrics_def simplify_def segment_def smooth_def s g)
  have c5: "segments (removeNoise cls var self) = map (seg_removeNoise cls var) (segments self)"
    by (simp add: removeNoise_def)
  from c1 c2 c3 c4 c5 show ?thesis by simp
qed

theorem toTrip_stage_sequence_witness:
  "segments (toTrip demo_class ''trip'' 2 ''inverse'' 1 1 1 1 5 ''%Y-%m-%d'' demo_raw)
     = [(demo_seg 1 0 0 1 1 ''s'')\<lparr>ds_log := [''s'', ''smooth'', ''compute_metrics'', ''segment'',
          ''compute_metrics'', ''simplify'', ''compute_metrics'']\<rparr>]"
proof -
  from toTrip_stage_sequence[of demo_class "''trip''" 2 "''inverse''" 1 1 1 1 5 "''%Y-%m-%d''" demo_raw]
  have "segments (toTrip demo_class ''trip'' 2 ''inverse'' 1 1 1 1 5 ''%Y-%m-%d'' demo_raw)
     = map (seg_compute_metrics demo_class)
         (map (seg_simplify demo_class False 1)
           (map (seg_compute_metrics demo_class)
             (concat (map (\<lambda>sg. map (seg_Segment demo_class) (seg_segment demo_class 1 1 sg))
               (map (seg_compute_metrics demo_class)
                 (map (seg_smooth demo_class ''inverse'' 1) (segments demo_raw)))))))"
    by blast
  then show ?thesis
    by (simp add: demo_class_def demo_raw_def demo_seg_def logged_def)
qed

subsection \<open>Similarity\<close>



























subsection \<open>Merging\<close>








lemma merge_loop_payload:
  "map index_pair ff = map index_pair ff' \<Longrightarrow> merge_loop cls ss ts ff = merge_loop cls ss ts ff'"
proof (induction ff arbitrary: ff' ss ts)
  case Nil
  then show ?case by simp
next
  case (Cons c ff)
  then obtain c' gg where ff': "ff' = c' # gg" and c: "index_pair c = index_pair c'"
    and r: "map index_pair ff = map index_pair gg" by (cases ff') auto
  show ?case
  proof (cases c)
    case Empty_marker
    with c have "c' = Empty_marker" by (cases c' rule: index_pair.cases) auto
    with Empty_marker ff' show ?thesis by simp
  next
    case (Triple t)
    obtain i j d where t: "t = (i, j, d)" by (cases t) auto
    from c Triple t obtain d' where c': "c' = Triple (i, j, d')"
      by (cases c' rule: index_pair.cases) auto
    show ?thesis
      unfolding ff' Triple t c'
      by (simp add: Cons.IH[OF r] split: option.splits prod.splits)
  qed
qed





text \<open>
  A list that starts with the empty marker, as \<^verbatim>\<open>similarity\<close> yields for a
  query segment without candidates, stops the loop at once with ValueError.
\<close>

lemma merge_and_fit_empty_marker:
  "merge_and_fit cls self trk (Empty_marker # ff) threshold =
     \<lparr>self_after = self\<lparr>segments := segments self\<rparr>,
      other_after = trk\<lparr>segments := segments trk\<rparr>,
      returned = Inl ValueError\<rparr>"
  by (simp add: merge_and_fit_def)




text \<open>
  C10. Two correspondence lists with the same index pairs, entry by entry, whatever their
  diff payloads, and any two thresholds give the same call of \<^verbatim>\<open>merge_and_fit\<close>:
  the same two tracks afterwards and the same outcome.
\<close>

theorem merge_and_fit_ignores_payload_and_threshold:
  "map index_pair ff = map index_pair ff' \<Longrightarrow>
     merge_and_fit cls self trk ff threshold = merge_and_fit cls self trk ff' threshold'"
  by (simp add: merge_and_fit_def merge_loop_payload[of ff ff'])

theorem merge_and_fit_ignores_payload_and_threshold_witness:
  "merge_and_fit demo_class demo_A demo_B [Triple (0, 0, ''x''), Triple (2, 1, ''y'')] 0
     = merge_and_fit demo_class demo_A demo_B [Triple (0, 0, [1::nat]), Triple (2, 1, [])] 7"
  by (rule merge_and_fit_ignores_payload_and_threshold) simp

end
